theory Spec2Isabelle
  imports Main "HOL-Library.Word" "HOL-Library.AList"
begin

section \<open>Values, instants and durations\<close>

text \<open>
  Keys and payloads of the cache are Go values of type \<^verbatim>\<open>interface{}\<close>. The model keeps
  the dynamic type of a value, because \<^verbatim>\<open>Save\<close> and \<^verbatim>\<open>cleanup\<close> assert it. Only values
  of a comparable dynamic type are modelled: these are the values \<^verbatim>\<open>sync.Map\<close> accepts
  as keys (a key of a slice, map or function type makes \<^verbatim>\<open>Store\<close> panic). A \<^verbatim>\<open>float64\<close>
  is kept as its IEEE 754 bit pattern.
\<close>

datatype iface = INil | IString string | IInt int | IBool bool | IFloat64 "64 word"

text \<open>
  Go's \<^verbatim>\<open>==\<close> on interface values, which is how a map compares keys: equal dynamic
  types and equal values. On \<^verbatim>\<open>float64\<close> it is the IEEE comparison: a NaN (exponent
  bits all set, fraction not zero) equals nothing, itself included, and the two zeros
  are equal.
\<close>

definition isNaN :: "64 word \<Rightarrow> bool" where
  "isNaN b = (take_bit 11 (drop_bit 52 b) = 2047 \<and> take_bit 52 b \<noteq> 0)"

definition isZero :: "64 word \<Rightarrow> bool" where
  "isZero b = (take_bit 63 b = 0)"

definition float64_eq :: "64 word \<Rightarrow> 64 word \<Rightarrow> bool" where
  "float64_eq a b = (\<not> isNaN a \<and> \<not> isNaN b \<and> (a = b \<or> (isZero a \<and> isZero b)))"

fun go_eq :: "iface \<Rightarrow> iface \<Rightarrow> bool" where
  "go_eq INil INil = True"
| "go_eq (IString a) (IString b) = (a = b)"
| "go_eq (IInt a) (IInt b) = (a = b)"
| "go_eq (IBool a) (IBool b) = (a = b)"
| "go_eq (IFloat64 a) (IFloat64 b) = float64_eq a b"
| "go_eq _ _ = False"

text \<open>
  \<^verbatim>\<open>time.Duration\<close> is an \<^verbatim>\<open>int64\<close> count of nanoseconds. An instant (\<^verbatim>\<open>time.Time\<close>) is
  modelled as an unbounded number of nanoseconds since Go's zero time, so that the zero
  \<^verbatim>\<open>time.Time\<close> is \<open>0\<close>. \<^verbatim>\<open>Time.Sub\<close> saturates at the largest and the smallest duration,
  as the library documents. Every reading of the clock (\<^verbatim>\<open>time.Now()\<close>) is an argument of
  the function that takes it.
\<close>

type_synonym duration = "64 word"
type_synonym time = int

definition zero_time :: time where
  "zero_time = 0"

definition Second :: duration where
  "Second = 1000000000"

definition maxDuration :: duration where
  "maxDuration = word_of_int (2 ^ 63 - 1)"

definition minDuration :: duration where
  "minDuration = word_of_int (- (2 ^ 63))"

definition time_Add :: "time \<Rightarrow> duration \<Rightarrow> time" where
  "time_Add t d = t + sint d"

definition time_Sub :: "time \<Rightarrow> time \<Rightarrow> duration" where
  "time_Sub t u =
     (if t - u > 2 ^ 63 - 1 then maxDuration
      else if t - u < - (2 ^ 63) then minDuration
      else word_of_int (t - u))"

definition time_Since :: "time \<Rightarrow> time \<Rightarrow> duration" where
  "time_Since now t = time_Sub now t"

section \<open>The store\<close>

record element =
  Expired :: time
  Payload :: iface

text \<open>
  The contents of the \<^verbatim>\<open>sync.Map\<close>: an association list whose order is the order in
  which \<^verbatim>\<open>Range\<close> visits the entries. Go leaves that order open, so every statement
  about a sweep is made for every order. \<^verbatim>\<open>Load\<close>, \<^verbatim>\<open>Store\<close> and \<^verbatim>\<open>Delete\<close> find an
  entry by Go's \<^verbatim>\<open>==\<close> on the keys: \<^verbatim>\<open>Store\<close> sets the value of the entry it finds and
  adds an entry when it finds none, so a NaN key is added at every \<^verbatim>\<open>Store\<close> and found
  by no \<^verbatim>\<open>Load\<close> or \<^verbatim>\<open>Delete\<close>.
\<close>

type_synonym store = "(iface \<times> element) list"

fun Map_Load :: "store \<Rightarrow> iface \<Rightarrow> element option" where
  "Map_Load [] key = None"
| "Map_Load ((k, e) # m) key = (if go_eq k key then Some e else Map_Load m key)"

fun Map_Store :: "iface \<Rightarrow> element \<Rightarrow> store \<Rightarrow> store" where
  "Map_Store key elm [] = [(key, elm)]"
| "Map_Store key elm ((k, e) # m) =
     (if go_eq k key then (k, elm) # m else (k, e) # Map_Store key elm m)"

definition Map_Delete :: "iface \<Rightarrow> store \<Rightarrow> store" where
  "Map_Delete key m = filter (\<lambda>(k, e). \<not> go_eq k key) m"

definition is_expired :: "time \<Rightarrow> element \<Rightarrow> bool" where
  "is_expired now elm = (0 < sint (time_Since now (Expired elm)))"

definition Put :: "time \<Rightarrow> iface \<Rightarrow> iface \<Rightarrow> duration \<Rightarrow> store \<Rightarrow> store" where
  "Put now key payload ttl c =
     Map_Store key \<lparr>Expired = time_Add now ttl, Payload = payload\<rparr> c"

definition Get :: "time \<Rightarrow> iface \<Rightarrow> store \<Rightarrow> iface \<times> store" where
  "Get now key c =
     (case Map_Load c key of
        None \<Rightarrow> (INil, c)
      | Some elm \<Rightarrow>
          if is_expired now elm then (INil, Map_Delete key c)
          else (Payload elm, c))"

definition GetWithExpire :: "time \<Rightarrow> iface \<Rightarrow> store \<Rightarrow> (iface \<times> time) \<times> store" where
  "GetWithExpire now key c =
     (case Map_Load c key of
        None \<Rightarrow> ((INil, zero_time), c)
      | Some elm \<Rightarrow>
          if is_expired now elm then ((INil, zero_time), Map_Delete key c)
          else ((Payload elm, Expired elm), c))"

section \<open>Persistence\<close>

text \<open>
  Type assertions without the comma-ok form panic when the dynamic type differs. A panic
  is a result of its own, apart from the \<^verbatim>\<open>error\<close> values that \<^verbatim>\<open>Save\<close> returns.
\<close>

datatype panic = TypeAssertion

datatype error = CreateError | EncodeError

text \<open>
  Packages \<^verbatim>\<open>os\<close> and \<^verbatim>\<open>encoding/gob\<close> are outside the repository. A file is modelled by
  what the decoder makes of it: the \<^verbatim>\<open>map[string]string\<close> it holds, or nothing that
  decodes (an empty or a damaged file). The list in \<open>GobMap\<close> is in the order in which
  the \<^verbatim>\<open>range\<close> loop of \<^verbatim>\<open>Reload\<close> visits the decoded map. The file system says for which
  paths creating a file or writing to it fails.
\<close>

datatype file_content = GobMap "(string \<times> string) list" | Undecodable

record fsys =
  files :: "string \<Rightarrow> file_content option"
  create_fails :: "string \<Rightarrow> bool"
  write_fails :: "string \<Rightarrow> bool"

definition os_Create :: "fsys \<Rightarrow> string \<Rightarrow> fsys option" where
  "os_Create fs filepath =
     (if create_fails fs filepath then None
      else Some (fs\<lparr>files := (files fs)(filepath \<mapsto> Undecodable)\<rparr>))"

definition os_Open :: "fsys \<Rightarrow> string \<Rightarrow> file_content option" where
  "os_Open fs filepath = files fs filepath"

definition gob_Encode :: "fsys \<Rightarrow> string \<Rightarrow> (string \<times> string) list \<Rightarrow> fsys option" where
  "gob_Encode fs filepath res =
     (if write_fails fs filepath then None
      else Some (fs\<lparr>files := (files fs)(filepath \<mapsto> GobMap res)\<rparr>))"

definition gob_Decode :: "file_content \<Rightarrow> (string \<times> string) list option" where
  "gob_Decode f = (case f of GobMap items \<Rightarrow> Some items | Undecodable \<Rightarrow> None)"

definition HasPrefix :: "string \<Rightarrow> string \<Rightarrow> bool" where
  "HasPrefix s pre = (length pre \<le> length s \<and> take (length pre) s = pre)"

text \<open>The callback that \<^verbatim>\<open>Save\<close> passes to \<^verbatim>\<open>Range\<close>, run over the entries in turn.\<close>

fun Save_range :: "store \<Rightarrow> (string \<times> string) list \<Rightarrow> panic + (string \<times> string) list" where
  "Save_range [] res = Inr res"
| "Save_range ((k, v) # rest) res =
     (case k of
        IString key \<Rightarrow>
          if HasPrefix key ''fakeip:'' then
            (case Payload v of
               IString p \<Rightarrow> Save_range rest (AList.update key p res)
             | _ \<Rightarrow> Inl TypeAssertion)
          else Save_range rest res
      | _ \<Rightarrow> Inl TypeAssertion)"

text \<open>
  \<^verbatim>\<open>Save\<close> returns an error value, or panics. The deferred \<^verbatim>\<open>f.Close()\<close> on a nil file
  after a failed \<^verbatim>\<open>os.Create\<close> returns an error that is dropped.
\<close>

definition Save :: "fsys \<Rightarrow> string \<Rightarrow> store \<Rightarrow> panic + (error option \<times> fsys)" where
  "Save fs filepath c =
     (case os_Create fs filepath of
        None \<Rightarrow> Inr (Some CreateError, fs)
      | Some fs1 \<Rightarrow>
          (case Save_range c [] of
             Inl p \<Rightarrow> Inl p
           | Inr res \<Rightarrow>
               (case gob_Encode fs1 filepath res of
                  None \<Rightarrow> Inr (Some EncodeError, fs1)
                | Some fs2 \<Rightarrow> Inr (None, fs2))))"

text \<open>
  The loop of \<^verbatim>\<open>Reload\<close>. Each \<^verbatim>\<open>Put\<close> reads the clock: \<open>clk i\<close> is the reading of
  the \<open>i\<close>-th round. The counter is a \<^verbatim>\<open>uint32\<close>.
\<close>

fun Reload_loop ::
  "(nat \<Rightarrow> time) \<Rightarrow> nat \<Rightarrow> (string \<times> string) list \<Rightarrow> store \<Rightarrow> 32 word \<Rightarrow> 32 word \<times> store" where
  "Reload_loop clk i [] c res = (res, c)"
| "Reload_loop clk i ((k, v) # items) c res =
     Reload_loop clk (Suc i) items (Put (clk i) (IString k) (IString v) (600 * Second) c) (res + 1)"

definition Reload :: "(nat \<Rightarrow> time) \<Rightarrow> fsys \<Rightarrow> string \<Rightarrow> store \<Rightarrow> 32 word \<times> store" where
  "Reload clk fs filepath c =
     (case os_Open fs filepath of
        None \<Rightarrow> (0, c)
      | Some f \<Rightarrow>
          (case gob_Decode f of
             None \<Rightarrow> (0, c)
           | Some items \<Rightarrow> Reload_loop clk 0 items c 0))"

section \<open>The janitor\<close>

text \<open>
  The callback of \<^verbatim>\<open>cleanup\<close>, run over the entries that \<^verbatim>\<open>Range\<close> visits. Each
  \<^verbatim>\<open>time.Since\<close> reads the clock: \<open>clk i\<close> is the reading at the \<open>i\<close>-th entry.
\<close>

fun cleanup_range :: "(nat \<Rightarrow> time) \<Rightarrow> nat \<Rightarrow> store \<Rightarrow> store \<Rightarrow> panic + store" where
  "cleanup_range clk i [] c = Inr c"
| "cleanup_range clk i ((k, elm) # rest) c =
     (case k of
        IString key \<Rightarrow>
          cleanup_range clk (Suc i) rest
            (if is_expired (clk i) elm then Map_Delete (IString key) c else c)
      | _ \<Rightarrow> Inl TypeAssertion)"

definition cleanup :: "(nat \<Rightarrow> time) \<Rightarrow> store \<Rightarrow> panic + store" where
  "cleanup clk c = cleanup_range clk 0 c c"

text \<open>
  What the \<^verbatim>\<open>select\<close> of \<^verbatim>\<open>process\<close> receives: a tick of the ticker (with the clock
  readings of the sweep it starts) or the stop signal. \<^verbatim>\<open>process\<close> runs over the events
  that arrive; it returns at the stop signal, and the events after it find no receiver.
\<close>

datatype event = Tick "nat \<Rightarrow> time" | Stop

fun process :: "event list \<Rightarrow> store \<Rightarrow> panic + store" where
  "process [] c = Inr c"
| "process (Tick clk # evs) c =
     (case cleanup clk c of Inl p \<Rightarrow> Inl p | Inr c' \<Rightarrow> process evs c')"
| "process (Stop # evs) c = Inr c"

record janitor =
  interval :: duration

record cache =
  mapping :: store
  janitor :: janitor

definition New :: "duration \<Rightarrow> cache" where
  "New ivl = \<lparr>mapping = [], janitor = \<lparr>interval = ivl\<rparr>\<rparr>"

text \<open>
  Auxiliary notions for the statements about a sweep: whether a key holds a string, and
  the keys of the visited entries that are expired when the sweep checks them.
\<close>

fun isString :: "iface \<Rightarrow> bool" where
  "isString (IString s) = True"
| "isString _ = False"

fun expired_keys :: "(nat \<Rightarrow> time) \<Rightarrow> nat \<Rightarrow> store \<Rightarrow> iface list" where
  "expired_keys clk i [] = []"
| "expired_keys clk i ((k, elm) # rest) =
     (if is_expired (clk i) elm then k # expired_keys clk (Suc i) rest
      else expired_keys clk (Suc i) rest)"

text \<open>A file system with no file, on which nothing fails.\<close>

definition empty_fs :: fsys where
  "empty_fs = \<lparr>files = (\<lambda>_. None), create_fails = (\<lambda>_. False), write_fails = (\<lambda>_. False)\<rparr>"

section \<open>Instants and durations: basic facts\<close>

lemma sint_maxDuration: "sint maxDuration = 2 ^ 63 - 1"
  by (simp add: maxDuration_def)

lemma sint_minDuration: "sint minDuration = - (2 ^ 63)"
  by (simp add: minDuration_def)

lemma sint_in_range:
  fixes x :: int
  assumes "- (2 ^ 63) \<le> x" and "x \<le> 2 ^ 63 - 1"
  shows "sint (word_of_int x :: duration) = x"
  using assms by (simp add: sint_sbintrunc' signed_take_bit_int_eq_self)

lemma time_Since_pos_iff: "0 < sint (time_Since now t) \<longleftrightarrow> t < now"
proof -
  consider (hi) "now - t > 2 ^ 63 - 1" | (lo) "now - t < - (2 ^ 63)"
    | (mid) "- (2 ^ 63) \<le> now - t" "now - t \<le> 2 ^ 63 - 1"
    by linarith
  then show ?thesis
  proof cases
    case hi
    then show ?thesis
      by (simp add: time_Since_def time_Sub_def sint_maxDuration)
  next
    case lo
    then show ?thesis
      by (simp add: time_Since_def time_Sub_def sint_minDuration)
  next
    case mid
    then have "\<not> now - t > 2 ^ 63 - 1" and "\<not> now - t < - (2 ^ 63)"
      by linarith+
    then have "time_Since now t = word_of_int (now - t)"
      unfolding time_Since_def time_Sub_def by (simp only: if_False)
    then have "sint (time_Since now t) = now - t"
      using sint_in_range [OF mid] by (simp only:)
    then show ?thesis by simp
  qed
qed

lemma is_expired_iff: "is_expired now elm \<longleftrightarrow> Expired elm < now"
  by (simp add: is_expired_def time_Since_pos_iff)

lemma sint_600_Second: "sint (600 * Second) = 600000000000"
  by (simp add: Second_def)

section \<open>The map operations\<close>

lemma go_eq_sym: "go_eq a b \<Longrightarrow> go_eq b a"
  by (induction a b rule: go_eq.induct) (auto simp add: float64_eq_def)

lemma go_eq_trans: "go_eq a b \<Longrightarrow> go_eq b c \<Longrightarrow> go_eq a c"
  by (cases a; cases b; cases c) (auto simp add: float64_eq_def)

lemma go_eq_IString_right [simp]: "go_eq k (IString s) = (k = IString s)"
  by (cases k) auto

lemma go_eq_IString_left [simp]: "go_eq (IString s) k = (k = IString s)"
  by (cases k) auto

lemma go_eq_NaN: "isNaN b \<Longrightarrow> \<not> go_eq k (IFloat64 b)"
  by (cases k) (auto simp add: float64_eq_def)

lemma Map_Load_Some_refl: "Map_Load m key = Some elm \<Longrightarrow> go_eq key key"
  by (induction m) (auto split: if_splits, meson go_eq_sym go_eq_trans)

lemma Map_Load_Store:
  "Map_Load (Map_Store key elm m) key' = (if go_eq key key' then Some elm else Map_Load m key')"
proof (induction m)
  case Nil
  then show ?case by simp
next
  case (Cons ke m)
  obtain k e where ke: "ke = (k, e)" by (cases ke)
  show ?case
  proof (cases "go_eq k key")
    case True
    then have "go_eq k key' = go_eq key key'"
      by (meson go_eq_sym go_eq_trans)
    with True ke show ?thesis by simp
  next
    case False
    then have "\<not> (go_eq k key' \<and> go_eq key key')"
      by (meson go_eq_sym go_eq_trans)
    with False ke Cons.IH show ?thesis by auto
  qed
qed

lemma Map_Load_Delete:
  "Map_Load (Map_Delete key m) key' = (if go_eq key key' then None else Map_Load m key')"
proof (induction m)
  case Nil
  then show ?case by (simp add: Map_Delete_def)
next
  case (Cons ke m)
  obtain k e where ke: "ke = (k, e)" by (cases ke)
  have tl: "Map_Delete key (ke # m) =
      (if go_eq k key then Map_Delete key m else (k, e) # Map_Delete key m)"
    by (simp add: Map_Delete_def ke)
  show ?case
  proof (cases "go_eq k key")
    case True
    then have "go_eq key key' \<or> \<not> go_eq k key'"
      by (meson go_eq_sym go_eq_trans)
    with True ke tl Cons.IH show ?thesis by auto
  next
    case False
    then have "\<not> (go_eq k key' \<and> go_eq key key')"
      by (meson go_eq_sym go_eq_trans)
    with False ke tl Cons.IH show ?thesis by auto
  qed
qed

lemma Map_Delete_filter: "Map_Delete (IString s) c = filter (\<lambda>(k, e). k \<noteq> IString s) c"
  by (simp add: Map_Delete_def)

lemma Map_Load_strings:
  "\<forall>k \<in> fst ` set c. isString k \<Longrightarrow> Map_Load c key = map_of c key"
proof (induction c)
  case Nil
  then show ?case by simp
next
  case (Cons ke c)
  obtain k e where ke: "ke = (k, e)" by (cases ke)
  with Cons.prems obtain s where "k = IString s"
    by (cases k) auto
  with Cons ke show ?case by auto
qed

lemma map_of_filter_keys:
  "map_of (filter (\<lambda>(k, e). Q k) c) key = (if Q key then map_of c key else None)"
  by (induction c) auto

lemma Map_Load_nth:
  "\<forall>k \<in> fst ` set c. isString k \<Longrightarrow> distinct (map fst c) \<Longrightarrow> i < length c \<Longrightarrow>
   Map_Load c (fst (c ! i)) = Some (snd (c ! i))"
  by (simp add: Map_Load_strings)

text \<open>
  The keys of the store stay distinct as long as every key that is stored equals itself:
  the empty store has none, and \<^verbatim>\<open>Store\<close> and \<^verbatim>\<open>Delete\<close> keep them so.
\<close>

lemma Map_Store_keys:
  "map fst (Map_Store key elm m) =
     (if \<exists>k \<in> set (map fst m). go_eq k key then map fst m else map fst m @ [key])"
  by (induction m) (fastforce split: if_splits)+

lemma distinct_Put:
  "go_eq k k \<Longrightarrow> distinct (map fst c) \<Longrightarrow> distinct (map fst (Put now k v ttl c))"
  by (auto simp add: Put_def Map_Store_keys)

lemma distinct_Map_Delete: "distinct (map fst c) \<Longrightarrow> distinct (map fst (Map_Delete k c))"
  by (simp add: Map_Delete_def distinct_map_filter)

section \<open>Put and Get\<close>

text \<open>
  Claim C1, as the code has it. For every key \<open>k\<close> that equals itself under Go's \<^verbatim>\<open>==\<close>
  (every modelled key but a NaN), every payload \<open>v\<close> and TTL \<open>t > 0\<close>, \<^verbatim>\<open>Put(k, v, t)\<close>
  followed by \<^verbatim>\<open>Get(k)\<close> at the same clock reading returns \<open>v\<close> (and leaves the entry in
  place).
\<close>

theorem Put_then_Get_returns_payload:
  assumes "0 < sint t" and "go_eq k k"
  shows "Get now k (Put now k v t c) = (v, Put now k v t c)"
proof -
  have "\<not> is_expired now \<lparr>Expired = time_Add now t, Payload = v\<rparr>"
    using assms(1) by (simp add: is_expired_iff time_Add_def)
  then show ?thesis
    using assms(2) by (simp add: Get_def Put_def Map_Load_Store)
qed

theorem Put_then_Get_returns_payload_witness:
  "0 < sint (5 :: duration) \<and> go_eq (IString ''a'') (IString ''a'') \<and>
   Get 100 (IString ''a'') (Put 100 (IString ''a'') (IInt 7) 5 []) =
     (IInt 7, [(IString ''a'', \<lparr>Expired = 105, Payload = IInt 7\<rparr>)])"
proof -
  have t: "0 < sint (5 :: duration)" and e: "go_eq (IString ''a'') (IString ''a'')"
    by simp_all
  have "Put 100 (IString ''a'') (IInt 7) 5 [] = [(IString ''a'', \<lparr>Expired = 105, Payload = IInt 7\<rparr>)]"
    by (simp add: Put_def time_Add_def)
  then show ?thesis
    using t e Put_then_Get_returns_payload [OF t e, of 100 "IInt 7" "[]"] by simp
qed

text \<open>
  Claim C1 as stated fails at a key that holds a NaN (here the bit pattern of Go's
  \<^verbatim>\<open>math.NaN()\<close>): \<^verbatim>\<open>Put\<close> stores the entry, but no \<^verbatim>\<open>Load\<close> finds the key again, so
  \<^verbatim>\<open>Get\<close> at the same clock reading returns nil and not the payload.
\<close>

theorem Put_then_Get_NaN_key_counterexample:
  "0 < sint (5 :: duration) \<and>
   Put 100 (IFloat64 0x7FF8000000000001) (IInt 7) 5 [] =
     [(IFloat64 0x7FF8000000000001, \<lparr>Expired = 105, Payload = IInt 7\<rparr>)] \<and>
   Get 100 (IFloat64 0x7FF8000000000001) (Put 100 (IFloat64 0x7FF8000000000001) (IInt 7) 5 []) =
     (INil, [(IFloat64 0x7FF8000000000001, \<lparr>Expired = 105, Payload = IInt 7\<rparr>)])"
  by (simp add: Get_def Put_def time_Add_def float64_eq_def isNaN_def)

text \<open>
  Claim C2. For a key that is present: when the clock is strictly past the entry's
  \<^verbatim>\<open>Expired\<close>, \<^verbatim>\<open>Get\<close> deletes the key (a later \<^verbatim>\<open>Load\<close> finds nothing) and returns nil;
  otherwise it returns the stored payload and leaves the store as it is. So \<^verbatim>\<open>Get\<close>
  never returns the payload of an entry whose expiration has passed.
\<close>

theorem Get_present_lazy_eviction:
  assumes "Map_Load c k = Some elm"
  shows "(Expired elm < now \<longrightarrow>
            Get now k c = (INil, Map_Delete k c) \<and> Map_Load (Map_Delete k c) k = None) \<and>
         (\<not> Expired elm < now \<longrightarrow> Get now k c = (Payload elm, c))"
  using assms Map_Load_Some_refl [OF assms] by (simp add: Get_def is_expired_iff Map_Load_Delete)

theorem Get_present_lazy_eviction_witness:
  "Map_Load [(IString ''a'', \<lparr>Expired = 10, Payload = IInt 7\<rparr>)] (IString ''a'') =
     Some \<lparr>Expired = 10, Payload = IInt 7\<rparr> \<and>
   Get 11 (IString ''a'') [(IString ''a'', \<lparr>Expired = 10, Payload = IInt 7\<rparr>)] = (INil, []) \<and>
   Get 10 (IString ''a'') [(IString ''a'', \<lparr>Expired = 10, Payload = IInt 7\<rparr>)] =
     (IInt 7, [(IString ''a'', \<lparr>Expired = 10, Payload = IInt 7\<rparr>)])"
proof -
  let ?c = "[(IString ''a'', \<lparr>Expired = 10, Payload = IInt 7\<rparr>)]"
  have h: "Map_Load ?c (IString ''a'') = Some \<lparr>Expired = 10, Payload = IInt 7\<rparr>"
    by simp
  have d: "Map_Delete (IString ''a'') ?c = []"
    by (simp add: Map_Delete_filter)
  show ?thesis
    using h d Get_present_lazy_eviction [OF h, of 11] Get_present_lazy_eviction [OF h, of 10]
    by simp
qed

text \<open>
  Claim C10, as the code has it. \<^verbatim>\<open>GetWithExpire\<close> returns nil and the zero time when
  the key is absent or its entry has expired (deleting the expired entry), and the stored
  payload with the entry's \<^verbatim>\<open>Expired\<close> otherwise. For an entry that is returned, the
  timestamp is not the zero time if the entry's expiration is not, and the payload is not
  nil if the stored payload is not: a nil payload tells absence only where no nil payload
  is stored.
\<close>

theorem GetWithExpire_result:
  "(Map_Load c k = None \<longrightarrow> GetWithExpire now k c = ((INil, zero_time), c)) \<and>
   (\<forall>elm. Map_Load c k = Some elm \<longrightarrow>
      (Expired elm < now \<longrightarrow> GetWithExpire now k c = ((INil, zero_time), Map_Delete k c)) \<and>
      (\<not> Expired elm < now \<longrightarrow>
         GetWithExpire now k c = ((Payload elm, Expired elm), c) \<and>
         (Expired elm \<noteq> zero_time \<longrightarrow> snd (fst (GetWithExpire now k c)) \<noteq> zero_time) \<and>
         (Payload elm \<noteq> INil \<longrightarrow> fst (fst (GetWithExpire now k c)) \<noteq> INil)))"
  by (simp add: GetWithExpire_def is_expired_iff)

theorem GetWithExpire_result_witness:
  "Map_Load [] (IString ''a'') = None \<and>
   GetWithExpire 5 (IString ''a'') [] = ((INil, zero_time), []) \<and>
   Map_Load [(IString ''a'', \<lparr>Expired = 10, Payload = IInt 7\<rparr>)] (IString ''a'') =
     Some \<lparr>Expired = 10, Payload = IInt 7\<rparr> \<and>
   GetWithExpire 11 (IString ''a'') [(IString ''a'', \<lparr>Expired = 10, Payload = IInt 7\<rparr>)] =
     ((INil, zero_time), []) \<and>
   GetWithExpire 10 (IString ''a'') [(IString ''a'', \<lparr>Expired = 10, Payload = IInt 7\<rparr>)] =
     ((IInt 7, 10), [(IString ''a'', \<lparr>Expired = 10, Payload = IInt 7\<rparr>)])"
proof -
  let ?c = "[(IString ''a'', \<lparr>Expired = 10, Payload = IInt 7\<rparr>)]"
  have n: "Map_Load [] (IString ''a'') = None"
    by simp
  have h: "Map_Load ?c (IString ''a'') = Some \<lparr>Expired = 10, Payload = IInt 7\<rparr>"
    by simp
  have d: "Map_Delete (IString ''a'') ?c = []"
    by (simp add: Map_Delete_filter)
  show ?thesis
    using n h d GetWithExpire_result [of "[]" "IString ''a''" 5]
      GetWithExpire_result [of ?c "IString ''a''" 11]
      GetWithExpire_result [of ?c "IString ''a''" 10]
    by simp
qed

text \<open>
  Claim C10 as stated fails: after \<^verbatim>\<open>Put(k, nil, 10)\<close> the key is present and not
  expired, and \<^verbatim>\<open>GetWithExpire\<close> returns a nil payload (with the expiration \<open>10\<close>). A
  nil payload alone does not tell absence.
\<close>

theorem GetWithExpire_nil_payload_counterexample:
  "Map_Load (Put 0 (IString ''k'') INil 10 []) (IString ''k'') =
     Some \<lparr>Expired = 10, Payload = INil\<rparr> \<and>
   \<not> is_expired 5 \<lparr>Expired = 10, Payload = INil\<rparr> \<and>
   GetWithExpire 5 (IString ''k'') (Put 0 (IString ''k'') INil 10 []) =
     ((INil, 10), Put 0 (IString ''k'') INil 10 [])"
  by (simp add: GetWithExpire_def Put_def time_Add_def is_expired_iff)

section \<open>Save and Reload\<close>

text \<open>
  Claim C3 at failing inputs. \<^verbatim>\<open>Save\<close> panics on a store that holds a key that is not a
  string, and on a store that holds a non-string payload under a key with the prefix; a
  non-string payload under a key without the prefix is skipped.
\<close>

theorem Save_panics_on_non_string:
  "Save empty_fs ''snap'' (Put 0 (IInt 1) (IString ''x'') 5 []) = Inl TypeAssertion \<and>
   Save empty_fs ''snap'' (Put 0 (IString ''fakeip:10.0.0.1'') (IInt 1) 5 []) = Inl TypeAssertion \<and>
   Save empty_fs ''snap'' (Put 0 (IString ''other:1'') (IInt 1) 5 []) =
     Inr (None, empty_fs\<lparr>files := (files empty_fs)(''snap'' \<mapsto> GobMap [])\<rparr>)"
  by (simp add: Save_def empty_fs_def os_Create_def gob_Encode_def HasPrefix_def Put_def
     )

lemma Reload_loop_count:
  "fst (Reload_loop clk i items c res) = res + of_nat (length items)"
  by (induction items arbitrary: i c res) (auto simp add: algebra_simps)

lemma Reload_loop_keep:
  "key \<notin> IString ` fst ` set items \<Longrightarrow>
   Map_Load (snd (Reload_loop clk i items c res)) key = Map_Load c key"
proof (induction items arbitrary: i c res)
  case Nil
  then show ?case by simp
next
  case (Cons kv items)
  obtain k v where kv: "kv = (k, v)" by (cases kv)
  from Cons.prems kv have "key \<noteq> IString k" and "key \<notin> IString ` fst ` set items"
    by auto
  then show ?case
    using Cons.IH kv by (simp add: Put_def Map_Load_Store)
qed

lemma Reload_loop_load:
  "distinct (map fst items) \<Longrightarrow> j < length items \<Longrightarrow>
   Map_Load (snd (Reload_loop clk i items c res)) (IString (fst (items ! j))) =
     Some \<lparr>Expired = clk (i + j) + 600000000000, Payload = IString (snd (items ! j))\<rparr>"
proof (induction items arbitrary: i j c res)
  case Nil
  then show ?case by simp
next
  case (Cons kv items)
  obtain k v where kv: "kv = (k, v)" by (cases kv)
  show ?case
  proof (cases j)
    case 0
    from Cons.prems kv have "IString k \<notin> IString ` fst ` set items"
      by auto
    then have "Map_Load (snd (Reload_loop clk (Suc i) items
        (Put (clk i) (IString k) (IString v) (600 * Second) c) (res + 1))) (IString k) =
      Map_Load (Put (clk i) (IString k) (IString v) (600 * Second) c) (IString k)"
      by (rule Reload_loop_keep)
    then show ?thesis
      using 0 kv by (simp add: Put_def Map_Load_Store time_Add_def sint_600_Second)
  next
    case (Suc j')
    with Cons.prems kv have "distinct (map fst items)" and "j' < length items"
      by auto
    from Cons.IH [OF this] show ?thesis
      using Suc kv by simp
  qed
qed

lemma Save_range_fakeip:
  "Save_range [(IString ''fakeip:10.0.0.1'', \<lparr>Expired = e1, Payload = IString ''host-a''\<rparr>),
               (IString ''other:1'', \<lparr>Expired = e2, Payload = IString ''x''\<rparr>)] [] =
     Inr [(''fakeip:10.0.0.1'', ''host-a'')]"
  "Save_range [(IString ''other:1'', \<lparr>Expired = e2, Payload = IString ''x''\<rparr>),
               (IString ''fakeip:10.0.0.1'', \<lparr>Expired = e1, Payload = IString ''host-a''\<rparr>)] [] =
     Inr [(''fakeip:10.0.0.1'', ''host-a'')]"
  by (simp_all add: HasPrefix_def)

text \<open>
  Claim C5. A store holds \<open>''fakeip:10.0.0.1''\<close> with payload \<open>''host-a''\<close> and
  \<open>''other:1''\<close> with payload \<open>''x''\<close>, visited in either order. Where the file can be
  created and written, \<^verbatim>\<open>Save\<close> returns no error and the file holds the \<open>fakeip:\<close>
  entry only. \<^verbatim>\<open>Reload\<close> of that file into the store of a new cache loads one entry;
  within the 600 seconds after the reload, \<^verbatim>\<open>Get\<close> of the first key returns
  \<open>''host-a''\<close>, and \<^verbatim>\<open>Get\<close> of the second returns nil.
\<close>

theorem Save_Reload_round_trip:
  assumes "\<not> create_fails fs filepath" and "\<not> write_fails fs filepath"
    and "now \<le> clk 0 + 600 * 1000000000"
    and "c = [(IString ''fakeip:10.0.0.1'', \<lparr>Expired = e1, Payload = IString ''host-a''\<rparr>),
              (IString ''other:1'', \<lparr>Expired = e2, Payload = IString ''x''\<rparr>)] \<or>
         c = [(IString ''other:1'', \<lparr>Expired = e2, Payload = IString ''x''\<rparr>),
              (IString ''fakeip:10.0.0.1'', \<lparr>Expired = e1, Payload = IString ''host-a''\<rparr>)]"
  shows "let fs' = fs\<lparr>files := (files fs)(filepath \<mapsto> GobMap [(''fakeip:10.0.0.1'', ''host-a'')])\<rparr>;
             c' = snd (Reload clk fs' filepath (mapping (New ivl)))
         in Save fs filepath c = Inr (None, fs') \<and>
            fst (Reload clk fs' filepath (mapping (New ivl))) = 1 \<and>
            fst (Get now (IString ''fakeip:10.0.0.1'') c') = IString ''host-a'' \<and>
            fst (Get now (IString ''other:1'') c') = INil"
proof -
  let ?fs' = "fs\<lparr>files := (files fs)(filepath \<mapsto> GobMap [(''fakeip:10.0.0.1'', ''host-a'')])\<rparr>"
  have range: "Save_range c [] = Inr [(''fakeip:10.0.0.1'', ''host-a'')]"
    using assms(4) Save_range_fakeip by blast
  have save: "Save fs filepath c = Inr (None, ?fs')"
    using assms(1,2) by (simp add: Save_def os_Create_def gob_Encode_def range)
  have reload: "Reload clk ?fs' filepath (mapping (New ivl)) =
      (1, [(IString ''fakeip:10.0.0.1'',
            \<lparr>Expired = clk 0 + 600000000000, Payload = IString ''host-a''\<rparr>)])"
    by (simp add: Reload_def os_Open_def gob_Decode_def New_def Put_def
        time_Add_def sint_600_Second)
  have get1: "fst (Get now (IString ''fakeip:10.0.0.1'')
      [(IString ''fakeip:10.0.0.1'',
        \<lparr>Expired = clk 0 + 600000000000, Payload = IString ''host-a''\<rparr>)]) = IString ''host-a''"
    using assms(3) by (simp add: Get_def is_expired_iff)
  have get2: "fst (Get now (IString ''other:1'')
      [(IString ''fakeip:10.0.0.1'',
        \<lparr>Expired = clk 0 + 600000000000, Payload = IString ''host-a''\<rparr>)]) = INil"
    by (simp add: Get_def)
  show ?thesis
    by (simp add: Let_def save reload get1 get2)
qed

theorem Save_Reload_round_trip_witness:
  "\<not> create_fails empty_fs ''snap'' \<and> \<not> write_fails empty_fs ''snap'' \<and>
   (1000 :: int) \<le> 1000 + 600 * 1000000000 \<and>
   Save empty_fs ''snap''
     [(IString ''fakeip:10.0.0.1'', \<lparr>Expired = 500, Payload = IString ''host-a''\<rparr>),
      (IString ''other:1'', \<lparr>Expired = 500, Payload = IString ''x''\<rparr>)] =
     Inr (None, empty_fs\<lparr>files := (files empty_fs)(''snap'' \<mapsto> GobMap [(''fakeip:10.0.0.1'', ''host-a'')])\<rparr>) \<and>
   fst (Get 1000 (IString ''fakeip:10.0.0.1'')
     (snd (Reload (\<lambda>i. 1000)
       (empty_fs\<lparr>files := (files empty_fs)(''snap'' \<mapsto> GobMap [(''fakeip:10.0.0.1'', ''host-a'')])\<rparr>)
       ''snap'' (mapping (New 1000))))) = IString ''host-a'' \<and>
   fst (Get 1000 (IString ''other:1'')
     (snd (Reload (\<lambda>i. 1000)
       (empty_fs\<lparr>files := (files empty_fs)(''snap'' \<mapsto> GobMap [(''fakeip:10.0.0.1'', ''host-a'')])\<rparr>)
       ''snap'' (mapping (New 1000))))) = INil"
proof -
  have a: "\<not> create_fails empty_fs ''snap''" and b: "\<not> write_fails empty_fs ''snap''"
    by (simp_all add: empty_fs_def)
  have t: "(1000 :: int) \<le> (\<lambda>i. 1000) (0 :: nat) + 600 * 1000000000"
    by simp
  have c: "[(IString ''fakeip:10.0.0.1'', \<lparr>Expired = 500, Payload = IString ''host-a''\<rparr>),
            (IString ''other:1'', \<lparr>Expired = 500, Payload = IString ''x''\<rparr>)] =
           [(IString ''fakeip:10.0.0.1'', \<lparr>Expired = 500, Payload = IString ''host-a''\<rparr>),
            (IString ''other:1'', \<lparr>Expired = 500, Payload = IString ''x''\<rparr>)] \<or>
           [(IString ''fakeip:10.0.0.1'', \<lparr>Expired = 500, Payload = IString ''host-a''\<rparr>),
            (IString ''other:1'', \<lparr>Expired = 500, Payload = IString ''x''\<rparr>)] =
           [(IString ''other:1'', \<lparr>Expired = 500, Payload = IString ''x''\<rparr>),
            (IString ''fakeip:10.0.0.1'', \<lparr>Expired = 500, Payload = IString ''host-a''\<rparr>)]"
    by simp
  show ?thesis
    using a b Save_Reload_round_trip [OF a b t c, of 1000]
    by (simp add: Let_def)
qed

text \<open>
  Claim C6. When the file opens and decodes to a map, \<^verbatim>\<open>Reload\<close> returns the number of
  its entries (as a \<^verbatim>\<open>uint32\<close>: the exact number below \<open>2 ^ 32\<close> entries), and after it
  every key of the file is bound to its value with an expiration exactly 600 seconds
  after the clock reading of its own \<^verbatim>\<open>Put\<close>, whatever the store held for the key
  before.
\<close>

theorem Reload_fixed_ttl:
  assumes "os_Open fs filepath = Some f" and "gob_Decode f = Some items"
    and "distinct (map fst items)"
  shows "fst (Reload clk fs filepath c) = of_nat (length items) \<and>
         (length items < 2 ^ 32 \<longrightarrow> unat (fst (Reload clk fs filepath c)) = length items) \<and>
         (\<forall>j < length items.
            Map_Load (snd (Reload clk fs filepath c)) (IString (fst (items ! j))) =
              Some \<lparr>Expired = clk j + 600 * 1000000000, Payload = IString (snd (items ! j))\<rparr>)"
proof -
  have run: "Reload clk fs filepath c = Reload_loop clk 0 items c 0"
    using assms(1,2) by (simp add: Reload_def)
  have count: "fst (Reload clk fs filepath c) = of_nat (length items)"
    by (simp add: run Reload_loop_count)
  have "unat (of_nat (length items) :: 32 word) = length items" if "length items < 2 ^ 32"
    using of_nat_inverse [of "length items" "of_nat (length items) :: 32 word"] that by simp
  moreover have "Map_Load (snd (Reload clk fs filepath c)) (IString (fst (items ! j))) =
      Some \<lparr>Expired = clk j + 600 * 1000000000, Payload = IString (snd (items ! j))\<rparr>"
    if "j < length items" for j
    using Reload_loop_load [OF assms(3) that, of clk 0 c 0] by (simp add: run)
  ultimately show ?thesis
    using count by simp
qed

theorem Reload_fixed_ttl_witness:
  "os_Open (empty_fs\<lparr>files := (\<lambda>_. None)(''snap'' \<mapsto> GobMap [(''fakeip:1'', ''a''), (''k'', ''b'')])\<rparr>) ''snap'' =
     Some (GobMap [(''fakeip:1'', ''a''), (''k'', ''b'')]) \<and>
   gob_Decode (GobMap [(''fakeip:1'', ''a''), (''k'', ''b'')]) = Some [(''fakeip:1'', ''a''), (''k'', ''b'')] \<and>
   distinct (map fst [(''fakeip:1'', ''a''), (''k'', ''b'')]) \<and>
   Reload (\<lambda>i. 1000 + int i)
     (empty_fs\<lparr>files := (\<lambda>_. None)(''snap'' \<mapsto> GobMap [(''fakeip:1'', ''a''), (''k'', ''b'')])\<rparr>) ''snap''
     [(IString ''fakeip:1'', \<lparr>Expired = 7, Payload = IString ''old''\<rparr>)] =
     (2, [(IString ''fakeip:1'', \<lparr>Expired = 600000001000, Payload = IString ''a''\<rparr>),
          (IString ''k'', \<lparr>Expired = 600000001001, Payload = IString ''b''\<rparr>)])"
proof -
  let ?items = "[(''fakeip:1'', ''a''), (''k'', ''b'')]"
  let ?fs = "empty_fs\<lparr>files := (\<lambda>_. None)(''snap'' \<mapsto> GobMap ?items)\<rparr>"
  have o: "os_Open ?fs ''snap'' = Some (GobMap ?items)"
    by (simp add: os_Open_def)
  have g: "gob_Decode (GobMap ?items) = Some ?items"
    by (simp add: gob_Decode_def)
  have d: "distinct (map fst ?items)"
    by simp
  have "Reload (\<lambda>i. 1000 + int i) ?fs ''snap''
      [(IString ''fakeip:1'', \<lparr>Expired = 7, Payload = IString ''old''\<rparr>)] =
     (2, [(IString ''fakeip:1'', \<lparr>Expired = 600000001000, Payload = IString ''a''\<rparr>),
          (IString ''k'', \<lparr>Expired = 600000001001, Payload = IString ''b''\<rparr>)])"
    by (simp add: Reload_def os_Open_def gob_Decode_def Put_def time_Add_def
        sint_600_Second)
  then show ?thesis
    using o g d
      Reload_fixed_ttl [OF o g d, of "\<lambda>i. 1000 + int i"
        "[(IString ''fakeip:1'', \<lparr>Expired = 7, Payload = IString ''old''\<rparr>)]"]
    by simp
qed

text \<open>
  Claim C7. When the file cannot be opened, or its contents do not decode, \<^verbatim>\<open>Reload\<close>
  returns the count 0 and the store it was given, unchanged; its result has no error
  component.
\<close>

theorem Reload_unreadable_file:
  assumes "os_Open fs filepath = None \<or>
           (\<exists>f. os_Open fs filepath = Some f \<and> gob_Decode f = None)"
  shows "Reload clk fs filepath c = (0, c)"
  using assms by (auto simp add: Reload_def)

theorem Reload_unreadable_file_witness:
  "(os_Open empty_fs ''missing'' = None \<or>
    (\<exists>f. os_Open empty_fs ''missing'' = Some f \<and> gob_Decode f = None)) \<and>
   Reload (\<lambda>i. 1000) empty_fs ''missing'' [(IString ''a'', \<lparr>Expired = 7, Payload = IInt 1\<rparr>)] =
     (0, [(IString ''a'', \<lparr>Expired = 7, Payload = IInt 1\<rparr>)])"
proof -
  have h: "os_Open empty_fs ''missing'' = None \<or>
      (\<exists>f. os_Open empty_fs ''missing'' = Some f \<and> gob_Decode f = None)"
    by (simp add: os_Open_def empty_fs_def)
  show ?thesis
    using h Reload_unreadable_file [OF h, of "\<lambda>i. 1000"
        "[(IString ''a'', \<lparr>Expired = 7, Payload = IInt 1\<rparr>)]"]
    by simp
qed

section \<open>The sweep and the janitor\<close>

text \<open>
  Claim C4 at a failing input. After \<^verbatim>\<open>Put(1, v, ttl)\<close> on an empty store, with an
  integer key, the sweep panics at the assertion \<^verbatim>\<open>k.(string)\<close>, whatever the clock, the
  payload and the TTL are.
\<close>

theorem cleanup_panics_on_non_string_key:
  "cleanup clk (Put now (IInt 1) v ttl []) = Inl TypeAssertion"
  by (simp add: cleanup_def Put_def)

text \<open>
  Claim C8 at a failing input. An entry under an integer key has expired; the sweep
  panics and removes nothing. An expired entry under a string key that the sweep would
  visit after an integer key is not reached either.
\<close>

theorem cleanup_leaves_expired_entries:
  "is_expired 100 \<lparr>Expired = 50, Payload = IString ''x''\<rparr> \<and>
   cleanup (\<lambda>i. 100) [(IInt 1, \<lparr>Expired = 50, Payload = IString ''x''\<rparr>)] = Inl TypeAssertion \<and>
   cleanup (\<lambda>i. 100) [(IInt 1, \<lparr>Expired = 150, Payload = IString ''x''\<rparr>),
                       (IString ''a'', \<lparr>Expired = 50, Payload = IString ''y''\<rparr>)] = Inl TypeAssertion"
  by (simp add: cleanup_def is_expired_iff)

lemma cleanup_range_strings:
  "\<forall>k \<in> fst ` set rest. isString k \<Longrightarrow>
   cleanup_range clk i rest c =
     Inr (filter (\<lambda>(k, e). k \<notin> set (expired_keys clk i rest)) c)"
proof (induction rest arbitrary: i c)
  case Nil
  then show ?case by simp
next
  case (Cons ke rest)
  obtain k elm where ke: "ke = (k, elm)" by (cases ke)
  from Cons.prems ke obtain key where k: "k = IString key"
    by (cases k) auto
  from Cons.prems have rest: "\<forall>k \<in> fst ` set rest. isString k"
    by simp
  show ?case
    using Cons.IH [OF rest] ke k
    by (auto simp add: Map_Delete_filter intro: filter_cong)
qed

lemma expired_keys_subset: "set (expired_keys clk i rest) \<subseteq> fst ` set rest"
  by (induction clk i rest rule: expired_keys.induct) (fastforce split: if_splits)+

lemma expired_keys_nth:
  "distinct (map fst rest) \<Longrightarrow> j < length rest \<Longrightarrow>
   fst (rest ! j) \<in> set (expired_keys clk i rest) \<longleftrightarrow> is_expired (clk (i + j)) (snd (rest ! j))"
proof (induction rest arbitrary: i j)
  case Nil
  then show ?case by simp
next
  case (Cons ke rest)
  obtain k elm where ke: "ke = (k, elm)" by (cases ke)
  show ?case
  proof (cases j)
    case 0
    from Cons.prems ke have "k \<notin> fst ` set rest" by auto
    with expired_keys_subset [of clk "Suc i" rest]
    have "k \<notin> set (expired_keys clk (Suc i) rest)" by blast
    then show ?thesis using 0 ke by simp
  next
    case (Suc j')
    with Cons.prems ke have d: "distinct (map fst rest)" and l: "j' < length rest"
      and "k \<noteq> fst (rest ! j')"
      by (auto simp add: image_iff)
    then show ?thesis
      using Cons.IH [OF d l, of "Suc i"] Suc ke by simp
  qed
qed

text \<open>
  On a store whose keys are all strings the sweep does not panic. It removes the entries
  that are expired when it checks them, and no other entry.
\<close>

lemma cleanup_string_keys:
  assumes "distinct (map fst c)" and "\<forall>k \<in> fst ` set c. isString k"
  shows "case cleanup clk c of
           Inl p \<Rightarrow> False
         | Inr c' \<Rightarrow>
             set c' \<subseteq> set c \<and>
             (\<forall>i < length c.
                Map_Load c' (fst (c ! i)) =
                  (if Expired (snd (c ! i)) < clk i then None else Some (snd (c ! i))))"
proof -
  let ?c' = "filter (\<lambda>(k, e). k \<notin> set (expired_keys clk 0 c)) c"
  have run: "cleanup clk c = Inr ?c'"
    unfolding cleanup_def using assms(2) by (rule cleanup_range_strings)
  have "Map_Load ?c' (fst (c ! i)) =
          (if Expired (snd (c ! i)) < clk i then None else Some (snd (c ! i)))"
    if "i < length c" for i
  proof -
    have "fst (c ! i) \<in> set (expired_keys clk 0 c) \<longleftrightarrow> Expired (snd (c ! i)) < clk i"
      using expired_keys_nth [OF assms(1) that, of clk 0] by (simp add: is_expired_iff)
    moreover have "Map_Load c (fst (c ! i)) = Some (snd (c ! i))"
      using assms(2,1) that by (rule Map_Load_nth)
    moreover have "\<forall>k \<in> fst ` set ?c'. isString k"
      using assms(2) by auto
    then have "Map_Load ?c' (fst (c ! i)) = map_of ?c' (fst (c ! i))"
      by (rule Map_Load_strings)
    moreover have "Map_Load c (fst (c ! i)) = map_of c (fst (c ! i))"
      using assms(2) by (rule Map_Load_strings)
    ultimately show ?thesis
      by (simp add: map_of_filter_keys)
  qed
  then show ?thesis
    by (simp add: run)
qed

lemma cleanup_string_keys_example:
  "distinct (map fst [(IString ''a'', \<lparr>Expired = 50, Payload = IInt 1\<rparr>),
                      (IString ''b'', \<lparr>Expired = 150, Payload = IInt 2\<rparr>)]) \<and>
   (\<forall>k \<in> fst ` set [(IString ''a'', \<lparr>Expired = 50, Payload = IInt 1\<rparr>),
                      (IString ''b'', \<lparr>Expired = 150, Payload = IInt 2\<rparr>)]. isString k) \<and>
   cleanup (\<lambda>i. 100) [(IString ''a'', \<lparr>Expired = 50, Payload = IInt 1\<rparr>),
                       (IString ''b'', \<lparr>Expired = 150, Payload = IInt 2\<rparr>)] =
     Inr [(IString ''b'', \<lparr>Expired = 150, Payload = IInt 2\<rparr>)]"
proof -
  let ?c = "[(IString ''a'', \<lparr>Expired = 50, Payload = IInt 1\<rparr>),
             (IString ''b'', \<lparr>Expired = 150, Payload = IInt 2\<rparr>)]"
  have d: "distinct (map fst ?c)" by simp
  have s: "\<forall>k \<in> fst ` set ?c. isString k" by simp
  have "cleanup (\<lambda>i. 100) ?c = Inr [(IString ''b'', \<lparr>Expired = 150, Payload = IInt 2\<rparr>)]"
    by (simp add: cleanup_def is_expired_iff Map_Delete_filter)
  then show ?thesis
    using d s cleanup_string_keys [OF d s, of "\<lambda>i. 100"] by simp
qed

lemma process_after_Stop: "process (evs @ Stop # later) c = process evs c"
  by (induction evs c rule: process.induct) (auto split: sum.splits)

text \<open>
  Claim C9. The events that arrive after the stop signal change nothing: \<^verbatim>\<open>process\<close>
  returns at the signal with the store as the sweeps before it left it, so no tick after
  it starts a sweep. On that store \<^verbatim>\<open>Get\<close> still evicts lazily: for a key that is
  present it deletes the entry and returns nil when the clock is past its expiration,
  and returns the payload otherwise.
\<close>

theorem process_stops_sweeping:
  "process (evs @ Stop # later) c = process evs c \<and>
   (\<forall>c' elm. process (evs @ Stop # later) c = Inr c' \<longrightarrow> Map_Load c' k = Some elm \<longrightarrow>
      Get now k c' =
        (if Expired elm < now then (INil, Map_Delete k c') else (Payload elm, c')))"
  by (simp add: process_after_Stop Get_def is_expired_iff)

theorem process_stops_sweeping_witness:
  "process ([Tick (\<lambda>i. 100)] @ Stop # [Tick (\<lambda>i. 1000)])
     [(IString ''a'', \<lparr>Expired = 50, Payload = IInt 1\<rparr>),
      (IString ''b'', \<lparr>Expired = 150, Payload = IInt 2\<rparr>)] =
     Inr [(IString ''b'', \<lparr>Expired = 150, Payload = IInt 2\<rparr>)] \<and>
   Map_Load [(IString ''b'', \<lparr>Expired = 150, Payload = IInt 2\<rparr>)] (IString ''b'') =
     Some \<lparr>Expired = 150, Payload = IInt 2\<rparr> \<and>
   Get 1000 (IString ''b'') [(IString ''b'', \<lparr>Expired = 150, Payload = IInt 2\<rparr>)] = (INil, [])"
proof -
  let ?c = "[(IString ''a'', \<lparr>Expired = 50, Payload = IInt 1\<rparr>),
             (IString ''b'', \<lparr>Expired = 150, Payload = IInt 2\<rparr>)]"
  let ?c' = "[(IString ''b'', \<lparr>Expired = 150, Payload = IInt 2\<rparr>)]"
  have p: "process [Tick (\<lambda>i. 100)] ?c = Inr ?c'"
    by (simp add: cleanup_def is_expired_iff Map_Delete_filter)
  have h: "Map_Load ?c' (IString ''b'') = Some \<lparr>Expired = 150, Payload = IInt 2\<rparr>"
    by simp
  have d: "Map_Delete (IString ''b'') ?c' = []"
    by (simp add: Map_Delete_filter)
  show ?thesis
    using p h d
      process_stops_sweeping [of "[Tick (\<lambda>i. 100)]" "[Tick (\<lambda>i. 1000)]" ?c "IString ''b''" 1000]
    by simp
qed

end
